theory Spec2Isabelle
  imports Main "HOL-Library.Word"
begin

section \<open>Python values and exceptions\<close>

text \<open>
  The script \<^verbatim>\<open>main.py\<close> resolves a federation domain to its homeserver
  (well-known document, then DNS SRV record, then \<^verbatim>\<open>domain:8448\<close>), asks the
  homeserver for its version and counts the versions of all domains.

  A Python \<^verbatim>\<open>str\<close> is a \<^typ>\<open>string\<close>; a \<^typ>\<open>char\<close> stands for a code
  point below 256. A value decoded from a JSON body is a \<open>pyval\<close>; a \<^verbatim>\<open>dict\<close>
  is an association list in insertion order, looked up by its first matching key.
  A \<^verbatim>\<open>float\<close> is its IEEE-754 bit pattern.
\<close>

datatype pyval =
    PNone
  | PBool bool
  | PInt int
  | PFloat "64 word"
  | PStr string
  | PList "pyval list"
  | PDict "(string \<times> pyval) list"

text \<open>
  The instances of \<^verbatim>\<open>Exception\<close> that the operations of the script raise. The
  first four come from the interpreter; the others from the HTTP client
  (connection failure, timeout, a body that is not JSON) and from the DNS resolver.
\<close>

datatype exn =
    KeyError
  | TypeError
  | AttributeError
  | IndexError
  | ClientError
  | TimeoutError
  | JSONDecodeError
  | DNSError

text \<open>A computation either raises (\<open>Inl\<close>) or returns (\<open>Inr\<close>).\<close>

type_synonym 'a raises = "exn + 'a"

definition and_then :: "'a raises \<Rightarrow> ('a \<Rightarrow> 'b raises) \<Rightarrow> 'b raises" where
  "and_then m f = (case m of Inl e \<Rightarrow> Inl e | Inr v \<Rightarrow> f v)"

text \<open>\<^verbatim>\<open>try: body  except Exception as e: handler\<close>\<close>

definition try_except :: "'a raises \<Rightarrow> (exn \<Rightarrow> 'a raises) \<Rightarrow> 'a raises" where
  "try_except body handler = (case body of Inl e \<Rightarrow> handler e | Inr v \<Rightarrow> Inr v)"

text \<open>\<^verbatim>\<open>obj[key]\<close> for a \<^verbatim>\<open>str\<close> key: only a dict can be subscripted by a string.\<close>

fun getitem :: "pyval \<Rightarrow> string \<Rightarrow> pyval raises" where
  "getitem (PDict kvs) key = (case map_of kvs key of None \<Rightarrow> Inl KeyError | Some v \<Rightarrow> Inr v)"
| "getitem _ key = Inl TypeError"

text \<open>\<^verbatim>\<open>xs[0]\<close> on a list.\<close>

definition first_item :: "'a list \<Rightarrow> 'a raises" where
  "first_item xs = (case xs of [] \<Rightarrow> Inl IndexError | x # _ \<Rightarrow> Inr x)"

text \<open>\<^verbatim>\<open>x in s\<close> for two strings: \<open>x\<close> occurs in \<open>s\<close> as a contiguous piece.\<close>

fun str_contains :: "string \<Rightarrow> string \<Rightarrow> bool" where
  "str_contains [] x = (x = [])"
| "str_contains (c # cs) x = (take (length x) (c # cs) = x \<or> str_contains cs x)"

text \<open>
  \<^verbatim>\<open>x in obj\<close> for a \<^verbatim>\<open>str\<close> \<open>x\<close>: substring test on a string, element test on
  a list, key test on a dict; the other values are not iterable.
\<close>

fun py_in :: "string \<Rightarrow> pyval \<Rightarrow> bool raises" where
  "py_in x (PStr s) = Inr (str_contains s x)"
| "py_in x (PList vs) = Inr (PStr x \<in> set vs)"
| "py_in x (PDict kvs) = Inr (x \<in> fst ` set kvs)"
| "py_in x _ = Inl TypeError"

text \<open>
  The text an f-string or \<^verbatim>\<open>str.format\<close> puts in place of a value: a string
  stands for itself, any other value for its \<^verbatim>\<open>repr\<close>, which is a parameter
  \<open>repr\<close> of the model.
\<close>

fun py_format :: "(pyval \<Rightarrow> string) \<Rightarrow> pyval \<Rightarrow> string" where
  "py_format repr (PStr s) = s"
| "py_format repr v = repr v"

text \<open>\<^verbatim>\<open>str(n)\<close> of an integer: its decimal digits, with a minus sign below zero.\<close>

definition digit_char :: "nat \<Rightarrow> char" where
  "digit_char d = ''0123456789'' ! d"

function str_nat :: "nat \<Rightarrow> string" where
  "str_nat n = (if n < 10 then [digit_char n] else str_nat (n div 10) @ [digit_char (n mod 10)])"
  by pat_completeness auto
termination
  by (relation "measure id") auto

declare str_nat.simps [simp del]

definition str_int :: "int \<Rightarrow> string" where
  "str_int i = (if i < 0 then CHR ''-'' # str_nat (nat (- i)) else str_nat (nat i))"

text \<open>
  \<^verbatim>\<open>str.isspace\<close> on one character, for the code points below 256: tab to carriage
  return, the four separators 28 to 31, space, next line (133) and no-break space (160).
\<close>

definition isspace :: "char \<Rightarrow> bool" where
  "isspace c = ((of_char c :: nat) \<in> {9, 10, 11, 12, 13, 28, 29, 30, 31, 32, 133, 160})"

text \<open>
  \<^verbatim>\<open>s.split()\<close>: skip a run of whitespace, stop at the end of the string, else
  take the run of non-whitespace characters as the next piece, and go on.
\<close>

function str_split :: "string \<Rightarrow> string list" where
  "str_split s =
     (case dropWhile isspace s of
        [] \<Rightarrow> []
      | c # cs \<Rightarrow> (c # takeWhile (\<lambda>x. \<not> isspace x) cs) # str_split (dropWhile (\<lambda>x. \<not> isspace x) cs))"
  by pat_completeness auto
termination
proof (relation "measure length")
  show "wf (measure length)" by simp
next
  fix s :: string and c cs
  assume "dropWhile isspace s = c # cs"
  then have "length (c # cs) \<le> length s"
    by (metis length_dropWhile_le)
  moreover have "length (dropWhile (\<lambda>x. \<not> isspace x) cs) \<le> length cs"
    by (rule length_dropWhile_le)
  ultimately show "(dropWhile (\<lambda>x. \<not> isspace x) cs, s) \<in> measure length"
    by simp
qed

declare str_split.simps [simp del]

text \<open>\<^verbatim>\<open>obj.split()\<close>: only a string has the method.\<close>

fun py_split :: "pyval \<Rightarrow> string list raises" where
  "py_split (PStr s) = Inr (str_split s)"
| "py_split _ = Inl AttributeError"

section \<open>The world outside the script\<close>

text \<open>
  The optional request headers: \<^verbatim>\<open>None\<close> or a dict of strings.
\<close>

type_synonym headers = "(string \<times> string) list option"

text \<open>
  The HTTP session is what the network answers to a GET of a URL with the given
  headers, after the body was decoded as JSON: an exception or the decoded value.
\<close>

type_synonym session = "string \<Rightarrow> headers \<Rightarrow> pyval raises"

definition fetch :: "session \<Rightarrow> string \<Rightarrow> headers \<Rightarrow> pyval raises" where
  "fetch session url headers = session url headers"

text \<open>One SRV record of a DNS answer, and the resolver: what a query of a name and a
  record type answers, an exception or the list of records.\<close>

record srv_record =
  host :: string
  port :: int
  priority :: int
  weight :: int
  ttl :: int

type_synonym resolver = "string \<Rightarrow> string \<Rightarrow> srv_record list raises"

definition query :: "resolver \<Rightarrow> string \<Rightarrow> string \<Rightarrow> srv_record list raises" where
  "query resolver name qtype = resolver name qtype"

section \<open>Resolving a domain to its homeserver\<close>

text \<open>
  The body of the outer \<^verbatim>\<open>try\<close> of \<^verbatim>\<open>homeserver_for_domain\<close>: the well-known
  document. \<open>headers\<close> is the local variable, \<^verbatim>\<open>None\<close> at this point.
\<close>

definition well_known_tier ::
  "(pyval \<Rightarrow> string) \<Rightarrow> session \<Rightarrow> string \<Rightarrow> headers \<Rightarrow> (pyval \<times> headers \<times> string) raises" where
  "well_known_tier repr session domain headers =
     and_then (fetch session (''https://'' @ domain @ ''/.well-known/matrix/server'') None) (\<lambda>res.
     and_then (getitem res ''m.server'') (\<lambda>homeserver_initial.
     and_then (py_in '':'' homeserver_initial) (\<lambda>has_colon.
       let homeserver =
         (if \<not> has_colon then PStr (py_format repr homeserver_initial @ '':8448'')
          else homeserver_initial)
       in Inr (homeserver, headers, ''well-known''))))"

text \<open>The body of the inner \<^verbatim>\<open>try\<close>: the SRV record of \<^verbatim>\<open>_matrix._tcp.domain\<close>.\<close>

definition srv_tier :: "resolver \<Rightarrow> string \<Rightarrow> (pyval \<times> headers \<times> string) raises" where
  "srv_tier resolver domain =
     and_then (query resolver (''_matrix._tcp.'' @ domain) ''SRV'') (\<lambda>res.
     and_then (first_item res) (\<lambda>res0.
       let homeserver = PStr (host res0 @ '':'' @ str_int (port res0));
           headers = Some [(''Host'', domain)]
       in Inr (homeserver, headers, ''SRV'')))"

definition homeserver_for_domain ::
  "(pyval \<Rightarrow> string) \<Rightarrow> session \<Rightarrow> resolver \<Rightarrow> string \<Rightarrow> (pyval \<times> headers \<times> string) raises" where
  "homeserver_for_domain repr session resolver domain =
     (let headers = None in
      try_except (well_known_tier repr session domain headers) (\<lambda>e.
        try_except (srv_tier resolver domain) (\<lambda>e.
          let homeserver = PStr (domain @ '':8448'')
          in Inr (homeserver, headers, ''fallback''))))"

section \<open>Asking a homeserver for its version\<close>

text \<open>
  \<^verbatim>\<open>version_for_homeserver\<close> returns the version string, or \<^verbatim>\<open>None\<close> when
  anything in its \<^verbatim>\<open>try\<close> raised. The two arguments of \<^verbatim>\<open>format\<close> are evaluated
  from left to right. The lines printed under \<open>debug\<close> are not part of the model.
\<close>

definition version_for_homeserver ::
  "(pyval \<Rightarrow> string) \<Rightarrow> session \<Rightarrow> resolver \<Rightarrow> string \<Rightarrow> pyval \<Rightarrow> headers \<Rightarrow> string \<Rightarrow> bool
     \<Rightarrow> string option raises" where
  "version_for_homeserver repr session resolver domain homeserver headers method debug =
     try_except
       (and_then (fetch session
           (''https://'' @ py_format repr homeserver @ ''/_matrix/federation/v1/version'') headers) (\<lambda>res.
        and_then (getitem res ''server'') (\<lambda>versions.
        and_then (getitem versions ''name'') (\<lambda>name.
        and_then (getitem versions ''version'') (\<lambda>version.
        and_then (py_split version) (\<lambda>pieces.
        and_then (first_item pieces) (\<lambda>piece.
          let version_string = py_format repr name @ ''/'' @ piece
          in Inr (Some version_string))))))))
       (\<lambda>e. Inr None)"

definition version_for_domain ::
  "(pyval \<Rightarrow> string) \<Rightarrow> session \<Rightarrow> resolver \<Rightarrow> string \<Rightarrow> bool \<Rightarrow> string option raises" where
  "version_for_domain repr session resolver domain debug =
     and_then (homeserver_for_domain repr session resolver domain) (\<lambda>(homeserver, headers, method).
       version_for_homeserver repr session resolver domain homeserver headers method debug)"

section \<open>Counting the versions\<close>

text \<open>
  A dict with keys in insertion order: \<^verbatim>\<open>d.get(k, default)\<close> and \<^verbatim>\<open>d[k] = v\<close>,
  which overwrites the value of a key that is present, in its place, and appends a
  new key at the end.
\<close>

fun dict_get :: "('k \<times> 'v) list \<Rightarrow> 'k \<Rightarrow> 'v \<Rightarrow> 'v" where
  "dict_get [] k d = d"
| "dict_get ((k', v') # kvs) k d = (if k' = k then v' else dict_get kvs k d)"

fun dict_set :: "('k \<times> 'v) list \<Rightarrow> 'k \<Rightarrow> 'v \<Rightarrow> ('k \<times> 'v) list" where
  "dict_set [] k v = [(k, v)]"
| "dict_set ((k', v') # kvs) k v =
     (if k' = k then (k', v) # kvs else (k', v') # dict_set kvs k v)"

text \<open>
  \<^verbatim>\<open>collections.Counter(iterable)\<close> counts one element after the other into an
  empty dict; \<^verbatim>\<open>most_common()\<close> is
  \<^verbatim>\<open>sorted(self.items(), key=itemgetter(1), reverse=True)\<close>, and a sort with
  \<^verbatim>\<open>reverse=True\<close> reverses the list, sorts it stably and reverses it again.
\<close>

definition count_elements :: "('a \<times> int) list \<Rightarrow> 'a list \<Rightarrow> ('a \<times> int) list" where
  "count_elements mapping iterable =
     foldl (\<lambda>m elem. dict_set m elem (dict_get m elem 0 + 1)) mapping iterable"

definition Counter :: "'a list \<Rightarrow> ('a \<times> int) list" where
  "Counter iterable = count_elements [] iterable"

definition most_common :: "('a \<times> int) list \<Rightarrow> ('a \<times> int) list" where
  "most_common c = rev (sort_key snd (rev c))"

text \<open>
  The end of \<^verbatim>\<open>main\<close>, from the gathered results on: count them, most common
  first, and copy every entry but the one of \<^verbatim>\<open>None\<close> into the dict
  \<^verbatim>\<open>versions\<close>.
\<close>

definition count_versions :: "string option list \<Rightarrow> (string option \<times> int) list" where
  "count_versions results =
     (let versions_initial = most_common (Counter results)
      in foldl (\<lambda>versions (version, count).
                  if version \<noteq> None then dict_set versions version count else versions)
           [] versions_initial)"

text \<open>
  \<^verbatim>\<open>asyncio.gather\<close> returns the results of the tasks in the order of the tasks,
  and raises when a task raises.
\<close>

fun gather :: "'a raises list \<Rightarrow> 'a list raises" where
  "gather [] = Inr []"
| "gather (t # ts) = and_then t (\<lambda>r. and_then (gather ts) (\<lambda>rs. Inr (r # rs)))"

definition main_versions ::
  "(pyval \<Rightarrow> string) \<Rightarrow> session \<Rightarrow> resolver \<Rightarrow> bool \<Rightarrow> string list
     \<Rightarrow> (string option \<times> int) list raises" where
  "main_versions repr session resolver debug destinations =
     (let tasks = map (\<lambda>domain. version_for_domain repr session resolver domain debug) destinations
      in and_then (gather tasks) (\<lambda>results. Inr (count_versions results)))"

section \<open>Notions of the specification\<close>

text \<open>The first whitespace-delimited token of a string that has one.\<close>

definition first_token :: "string \<Rightarrow> string" where
  "first_token s = takeWhile (\<lambda>x. \<not> isspace x) (dropWhile isspace s)"

text \<open>The distinct elements of a list in the order in which each was first seen.\<close>

fun first_seen_from :: "'a list \<Rightarrow> 'a list \<Rightarrow> 'a list" where
  "first_seen_from seen [] = seen"
| "first_seen_from seen (x # xs) =
     first_seen_from (if x \<in> set seen then seen else seen @ [x]) xs"

definition first_seen :: "'a list \<Rightarrow> 'a list" where
  "first_seen xs = first_seen_from [] xs"

section \<open>Scenarios\<close>

text \<open>
  Three domains of the built-in list \<^verbatim>\<open>test_destinations\<close>: one whose well-known
  document names a server without a port, one with no well-known document and an SRV
  record, one with neither. Values that are not strings are rendered as \<open>?\<close>.
\<close>

definition repr_stub :: "pyval \<Rightarrow> string" where
  "repr_stub v = ''?''"

definition well_known_session :: session where
  "well_known_session url headers =
     (if url = ''https://digitale-gesellschaft.ch/.well-known/matrix/server''
      then Inr (PDict [(''m.server'', PStr ''digitale-gesellschaft.ch'')])
      else Inl ClientError)"

definition offline_session :: session where
  "offline_session url headers = Inl TimeoutError"

definition matrix_org_record :: srv_record where
  "matrix_org_record =
     \<lparr>host = ''matrix.org'', port = 8448, priority = 10, weight = 5, ttl = 300\<rparr>"

definition matrix_org_resolver :: resolver where
  "matrix_org_resolver name qtype =
     (if name = ''_matrix._tcp.matrix.org'' \<and> qtype = ''SRV''
      then Inr [matrix_org_record] else Inl DNSError)"

definition no_srv_resolver :: resolver where
  "no_srv_resolver name qtype = Inl DNSError"

text \<open>
  Two answers of a version endpoint: the one of the comment in
  \<^verbatim>\<open>version_for_homeserver\<close>, and one whose version consists of spaces.
\<close>

definition synapse_session :: session where
  "synapse_session url headers =
     (if url = ''https://matrix.org:8448/_matrix/federation/v1/version''
      then Inr (PDict [(''server'',
             PDict [(''name'', PStr ''Synapse''), (''version'', PStr ''1.6.1 (abcd,branch)'')])])
      else Inl ClientError)"

definition blank_version_session :: session where
  "blank_version_session url headers =
     Inr (PDict [(''server'', PDict [(''name'', PStr ''Synapse''), (''version'', PStr ''  '')])])"

section \<open>Evaluating the string functions\<close>

lemma str_nat_small: "n < 10 \<Longrightarrow> str_nat n = [digit_char n]"
  by (subst str_nat.simps) simp

lemma str_nat_big: "\<not> n < 10 \<Longrightarrow> str_nat n = str_nat (n div 10) @ [digit_char (n mod 10)]"
  by (subst str_nat.simps) simp

lemma str_contains_char: "str_contains s [c] = (c \<in> set s)"
  by (induction s) auto

section \<open>The resolver\<close>

lemma try_except_returns:
  assumes "\<And>e. \<exists>r. handler e = Inr r"
  shows "\<exists>r. try_except body handler = Inr r"
  using assms by (cases body) (simp_all add: try_except_def)

lemma resolver_returns: "\<exists>r. homeserver_for_domain repr session resolver domain = Inr r"
  unfolding homeserver_for_domain_def Let_def
  by (intro try_except_returns) simp

lemma well_known_tier_result:
  "well_known_tier repr session domain None = Inr (a, h, m) \<Longrightarrow> h = None \<and> m = ''well-known''"
  by (auto simp: well_known_tier_def and_then_def Let_def split: sum.splits)

lemma srv_tier_result:
  "srv_tier resolver domain = Inr (a, h, m) \<Longrightarrow> h = Some [(''Host'', domain)] \<and> m = ''SRV''"
  by (auto simp: srv_tier_def and_then_def Let_def split: sum.splits)

text \<open>
  C1. When the GET of the well-known document returns a JSON value whose
  \<^verbatim>\<open>m.server\<close> entry is a string, the resolver returns that string, with
  \<^verbatim>\<open>:8448\<close> appended when it has no colon and unchanged when it has one, together with
  no headers and the method \<^verbatim>\<open>well-known\<close>.
\<close>

theorem well_known_authority:
  assumes "fetch session (''https://'' @ domain @ ''/.well-known/matrix/server'') None = Inr res"
      and "getitem res ''m.server'' = Inr (PStr s)"
  shows "homeserver_for_domain repr session resolver domain =
           Inr (PStr (if CHR '':'' \<in> set s then s else s @ '':8448''), None, ''well-known'')"
  using assms
  by (simp add: homeserver_for_domain_def well_known_tier_def try_except_def and_then_def
        str_contains_char)

theorem well_known_authority_witness:
  "homeserver_for_domain repr_stub well_known_session no_srv_resolver ''digitale-gesellschaft.ch''
   = Inr (PStr ''digitale-gesellschaft.ch:8448'', None, ''well-known'')"
proof -
  have doc: "fetch well_known_session
      (''https://'' @ ''digitale-gesellschaft.ch'' @ ''/.well-known/matrix/server'') None
      = Inr (PDict [(''m.server'', PStr ''digitale-gesellschaft.ch'')])"
    by (simp add: fetch_def well_known_session_def)
  have entry: "getitem (PDict [(''m.server'', PStr ''digitale-gesellschaft.ch'')]) ''m.server''
      = Inr (PStr ''digitale-gesellschaft.ch'')"
    by simp
  show ?thesis
    using well_known_authority [OF doc entry, of repr_stub no_srv_resolver] by simp
qed

text \<open>
  C2. When the well-known step raises and the SRV query of \<^verbatim>\<open>_matrix._tcp.domain\<close>
  returns at least one record, the resolver returns host and port of the first record
  joined by a colon, the headers \<^verbatim>\<open>{'Host': domain}\<close> and the method \<^verbatim>\<open>SRV\<close>.
\<close>

theorem srv_authority:
  assumes "well_known_tier repr session domain None = Inl e"
      and "query resolver (''_matrix._tcp.'' @ domain) ''SRV'' = Inr (r # rs)"
  shows "homeserver_for_domain repr session resolver domain =
           Inr (PStr (host r @ '':'' @ str_int (port r)), Some [(''Host'', domain)], ''SRV'')"
  using assms
  by (simp add: homeserver_for_domain_def srv_tier_def try_except_def and_then_def first_item_def)

theorem srv_authority_witness:
  "homeserver_for_domain repr_stub offline_session matrix_org_resolver ''matrix.org''
   = Inr (PStr ''matrix.org:8448'', Some [(''Host'', ''matrix.org'')], ''SRV'')"
proof -
  have wk: "well_known_tier repr_stub offline_session ''matrix.org'' None = Inl TimeoutError"
    by (simp add: well_known_tier_def fetch_def offline_session_def and_then_def)
  have srv: "query matrix_org_resolver (''_matrix._tcp.'' @ ''matrix.org'') ''SRV''
      = Inr (matrix_org_record # [])"
    by (simp add: query_def matrix_org_resolver_def)
  have port: "str_int 8448 = ''8448''"
    by (simp add: str_int_def str_nat_small str_nat_big digit_char_def)
  show ?thesis
    using srv_authority [OF wk srv] by (simp add: matrix_org_record_def port)
qed

text \<open>
  C3. When the well-known step and the SRV step both raise, the resolver returns the
  domain with \<^verbatim>\<open>:8448\<close> appended, no headers and the method \<^verbatim>\<open>fallback\<close>.
\<close>

theorem fallback_authority:
  assumes "well_known_tier repr session domain None = Inl e"
      and "srv_tier resolver domain = Inl e'"
  shows "homeserver_for_domain repr session resolver domain =
           Inr (PStr (domain @ '':8448''), None, ''fallback'')"
  using assms by (simp add: homeserver_for_domain_def try_except_def)

theorem fallback_authority_witness:
  "homeserver_for_domain repr_stub offline_session no_srv_resolver ''matrix.tum.de''
   = Inr (PStr ''matrix.tum.de:8448'', None, ''fallback'')"
proof -
  have wk: "well_known_tier repr_stub offline_session ''matrix.tum.de'' None = Inl TimeoutError"
    by (simp add: well_known_tier_def fetch_def offline_session_def and_then_def)
  have srv: "srv_tier no_srv_resolver ''matrix.tum.de'' = Inl DNSError"
    by (simp add: srv_tier_def query_def no_srv_resolver_def and_then_def)
  show ?thesis
    using fallback_authority [OF wk srv] by simp
qed

text \<open>
  C4. For every domain, every answer of the network to the well-known request and
  every answer of the resolver, \<^verbatim>\<open>homeserver_for_domain\<close> returns a triple of
  authority, headers and method; it never raises.
\<close>

theorem homeserver_for_domain_returns:
  "\<exists>authority header method.
     homeserver_for_domain repr session resolver domain = Inr (authority, header, method)"
proof -
  obtain r where "homeserver_for_domain repr session resolver domain = Inr r"
    using resolver_returns by blast
  then show ?thesis by (cases r) simp
qed

text \<open>
  C5. In every result of the resolver the headers are present exactly when the method
  is \<^verbatim>\<open>SRV\<close>.
\<close>

theorem header_iff_srv:
  "(case homeserver_for_domain repr session resolver domain of
      Inl e \<Rightarrow> False
    | Inr (authority, header, method) \<Rightarrow> (header \<noteq> None) = (method = ''SRV''))"
proof (cases "well_known_tier repr session domain None")
  case (Inr r)
  obtain a h m where "r = (a, h, m)" by (cases r)
  with Inr well_known_tier_result [of repr session domain a h m] show ?thesis
    by (simp add: homeserver_for_domain_def try_except_def)
next
  case wk: (Inl e)
  show ?thesis
  proof (cases "srv_tier resolver domain")
    case (Inr r)
    obtain a h m where "r = (a, h, m)" by (cases r)
    with Inr wk srv_tier_result [of resolver domain a h m] show ?thesis
      by (simp add: homeserver_for_domain_def try_except_def)
  next
    case (Inl e')
    with wk show ?thesis
      by (simp add: homeserver_for_domain_def try_except_def)
  qed
qed

section \<open>The version of a homeserver\<close>

lemma str_split_blank:
  assumes "\<forall>c \<in> set s. isspace c"
  shows "str_split s = []"
proof -
  from assms have "dropWhile isspace s = []" by simp
  then show ?thesis by (subst str_split.simps) (simp only: list.case)
qed

lemma str_split_first:
  assumes "\<exists>c \<in> set s. \<not> isspace c"
  shows "\<exists>rest. str_split s = first_token s # rest"
proof -
  from assms have "dropWhile isspace s \<noteq> []"
    by simp
  then obtain c cs where d: "dropWhile isspace s = c # cs"
    by (cases "dropWhile isspace s") auto
  then have "\<not> isspace c"
    by (metis hd_dropWhile list.sel(1) list.distinct(1))
  with d have "first_token s = c # takeWhile (\<lambda>x. \<not> isspace x) cs"
    by (simp add: first_token_def)
  with d show ?thesis
    by (subst str_split.simps) simp
qed

text \<open>
  C6. When the GET of the version endpoint returns a JSON value with
  \<^verbatim>\<open>server.name\<close> and a string \<^verbatim>\<open>server.version\<close> that has a first
  whitespace-delimited token, \<^verbatim>\<open>version_for_homeserver\<close> returns the name, a slash
  and that token. The instance that follows is the example of the specification:
  \<^verbatim>\<open>Synapse\<close> with \<^verbatim>\<open>1.6.1 (abcd,branch)\<close> gives \<^verbatim>\<open>Synapse/1.6.1\<close>.
\<close>

theorem version_string_normalized:
  assumes "fetch session
             (''https://'' @ py_format repr homeserver @ ''/_matrix/federation/v1/version'') headers
           = Inr res"
      and "getitem res ''server'' = Inr versions"
      and "getitem versions ''name'' = Inr name"
      and "getitem versions ''version'' = Inr (PStr v)"
      and "\<exists>c \<in> set v. \<not> isspace c"
  shows "version_for_homeserver repr session resolver domain homeserver headers method debug
         = Inr (Some (py_format repr name @ ''/'' @ first_token v))"
proof -
  from assms(5) obtain rest where "str_split v = first_token v # rest"
    using str_split_first by blast
  with assms(1-4) show ?thesis
    by (simp add: version_for_homeserver_def try_except_def and_then_def first_item_def)
qed

theorem version_string_normalized_witness:
  "version_for_homeserver repr_stub synapse_session no_srv_resolver ''matrix.org''
     (PStr ''matrix.org:8448'') (Some [(''Host'', ''matrix.org'')]) ''SRV'' False
   = Inr (Some ''Synapse/1.6.1'')"
proof -
  let ?versions = "PDict [(''name'', PStr ''Synapse''), (''version'', PStr ''1.6.1 (abcd,branch)'')]"
  have body: "fetch synapse_session
      (''https://'' @ py_format repr_stub (PStr ''matrix.org:8448'') @ ''/_matrix/federation/v1/version'')
      (Some [(''Host'', ''matrix.org'')]) = Inr (PDict [(''server'', ?versions)])"
    by (simp add: fetch_def synapse_session_def)
  have server: "getitem (PDict [(''server'', ?versions)]) ''server'' = Inr ?versions"
    by simp
  have name: "getitem ?versions ''name'' = Inr (PStr ''Synapse'')"
    by simp
  have version: "getitem ?versions ''version'' = Inr (PStr ''1.6.1 (abcd,branch)'')"
    by simp
  have token: "\<exists>c \<in> set ''1.6.1 (abcd,branch)''. \<not> isspace c"
    by (simp add: isspace_def)
  have first: "first_token ''1.6.1 (abcd,branch)'' = ''1.6.1''"
    by (simp add: first_token_def isspace_def)
  show ?thesis
    using version_string_normalized [OF body server name version token,
        of no_srv_resolver "''matrix.org''" "''SRV''" False]
    by (simp add: first)
qed

text \<open>
  C10. When the JSON value has \<^verbatim>\<open>server.name\<close> and a string
  \<^verbatim>\<open>server.version\<close> that is empty or consists of whitespace only,
  \<^verbatim>\<open>version_for_homeserver\<close> returns \<^verbatim>\<open>None\<close>: it neither raises nor returns a
  version string.
\<close>

theorem blank_version_absent:
  assumes "fetch session
             (''https://'' @ py_format repr homeserver @ ''/_matrix/federation/v1/version'') headers
           = Inr res"
      and "getitem res ''server'' = Inr versions"
      and "getitem versions ''name'' = Inr name"
      and "getitem versions ''version'' = Inr (PStr v)"
      and "\<forall>c \<in> set v. isspace c"
  shows "version_for_homeserver repr session resolver domain homeserver headers method debug
         = Inr None"
  using assms str_split_blank [of v]
  by (simp add: version_for_homeserver_def try_except_def and_then_def first_item_def)

theorem blank_version_absent_witness:
  "version_for_homeserver repr_stub blank_version_session no_srv_resolver ''example.org''
     (PStr ''example.org:8448'') None ''fallback'' False
   = Inr None"
proof -
  let ?versions = "PDict [(''name'', PStr ''Synapse''), (''version'', PStr ''  '')]"
  have body: "fetch blank_version_session
      (''https://'' @ py_format repr_stub (PStr ''example.org:8448'') @ ''/_matrix/federation/v1/version'')
      None = Inr (PDict [(''server'', ?versions)])"
    by (simp add: fetch_def blank_version_session_def)
  have server: "getitem (PDict [(''server'', ?versions)]) ''server'' = Inr ?versions"
    by simp
  have name: "getitem ?versions ''name'' = Inr (PStr ''Synapse'')"
    by simp
  have version: "getitem ?versions ''version'' = Inr (PStr ''  '')"
    by simp
  have blank: "\<forall>c \<in> set ''  ''. isspace c"
    by (simp add: isspace_def)
  show ?thesis
    using blank_version_absent [OF body server name version blank,
        of no_srv_resolver "''example.org''" "''fallback''" False]
    by simp
qed

section \<open>The table of versions\<close>

subsection \<open>Dicts in insertion order\<close>

lemma dict_set_fresh: "k \<notin> set (map fst m) \<Longrightarrow> dict_set m k v = m @ [(k, v)]"
  by (induction m) auto

lemma keys_dict_set_present: "k \<in> fst ` set m \<Longrightarrow> map fst (dict_set m k v) = map fst m"
  by (induction m) (auto simp: rev_image_eqI)

lemma keys_dict_set:
  "map fst (dict_set m k v) = (if k \<in> set (map fst m) then map fst m else map fst m @ [k])"
  by (simp add: dict_set_fresh keys_dict_set_present)

lemma dict_get_dict_set:
  "dict_get (dict_set m k v) k' d = (if k' = k then v else dict_get m k' d)"
  by (induction m) auto

lemma dict_entries:
  "distinct (map fst m) \<Longrightarrow> m = map (\<lambda>k. (k, dict_get m k d)) (map fst m)"
proof (induction m)
  case Nil
  then show ?case by simp
next
  case (Cons e m)
  obtain k v where e: "e = (k, v)" by (cases e)
  from Cons.prems e have fresh: "k \<notin> set (map fst m)" and dist: "distinct (map fst m)"
    by auto
  from fresh have "map (\<lambda>k'. (k', dict_get (e # m) k' d)) (map fst m)
      = map (\<lambda>k'. (k', dict_get m k' d)) (map fst m)"
    using e by (intro map_cong) auto
  with Cons.IH [OF dist] e show ?case by simp
qed

lemma sum_dict_set:
  "sum_list (map snd (filter (\<lambda>e. P (fst e)) (dict_set m k v)))
   = sum_list (map snd (filter (\<lambda>e. P (fst e)) m)) + (if P k then v - dict_get m k 0 else 0)"
  for v :: int
  by (induction m) auto

subsection \<open>The counter\<close>

lemma first_seen_from_distinct: "distinct seen \<Longrightarrow> distinct (first_seen_from seen xs)"
  by (induction xs arbitrary: seen) auto

lemma keys_count_elements:
  "map fst (count_elements m xs) = first_seen_from (map fst m) xs"
  unfolding count_elements_def
  by (induction xs arbitrary: m) (simp_all add: keys_dict_set)

lemma dict_get_count_elements:
  "dict_get (count_elements m xs) k 0 = dict_get m k 0 + int (count_list xs k)"
  unfolding count_elements_def
  by (induction xs arbitrary: m) (simp_all add: dict_get_dict_set)

lemma sum_count_elements:
  "sum_list (map snd (filter (\<lambda>e. P (fst e)) (count_elements m xs)))
   = sum_list (map snd (filter (\<lambda>e. P (fst e)) m)) + int (length (filter P xs))"
  unfolding count_elements_def
  by (induction xs arbitrary: m) (simp_all add: sum_dict_set)

lemma keys_Counter: "map fst (Counter xs) = first_seen xs"
  by (simp add: Counter_def first_seen_def keys_count_elements)

lemma distinct_first_seen: "distinct (first_seen xs)"
  by (simp add: first_seen_def first_seen_from_distinct)

lemma Counter_entries: "Counter xs = map (\<lambda>k. (k, int (count_list xs k))) (first_seen xs)"
proof -
  have "distinct (map fst (Counter xs))"
    by (simp add: keys_Counter distinct_first_seen)
  then have "Counter xs = map (\<lambda>k. (k, dict_get (Counter xs) k 0)) (map fst (Counter xs))"
    by (rule dict_entries)
  moreover have "dict_get (Counter xs) k 0 = int (count_list xs k)" for k
    by (simp add: Counter_def dict_get_count_elements)
  ultimately show ?thesis
    by (simp add: keys_Counter)
qed

subsection \<open>Most common first\<close>

lemma keys_insort_key:
  "set (map fst (insort_key f e es)) = insert (fst e) (set (map fst es))"
  by (simp add: set_insort_key)

lemma distinct_keys_insort_key:
  "distinct (map fst (insort_key f e es)) = (fst e \<notin> set (map fst es) \<and> distinct (map fst es))"
  by (induction es) (auto simp: set_insort_key)

lemma distinct_keys_sort_key:
  "distinct (map fst (sort_key f es)) = distinct (map fst es)"
  by (induction es) (simp_all add: distinct_keys_insort_key)

lemma distinct_keys_most_common:
  "distinct (map fst (most_common c)) = distinct (map fst c)"
  by (simp add: most_common_def rev_map [symmetric] distinct_keys_sort_key del: rev_map)

lemma sum_insort_key: "sum_list (map g (insort_key f e es)) = g e + sum_list (map g es)"
  for g :: "'a \<Rightarrow> int"
  by (induction es) simp_all

lemma sum_sort_key: "sum_list (map g (sort_key f es)) = sum_list (map g es)"
  for g :: "'a \<Rightarrow> int"
  by (induction es) (simp_all add: sum_insort_key)

lemma sum_most_common: "sum_list (map snd (most_common c)) = sum_list (map snd c)"
  by (simp add: most_common_def rev_map [symmetric] sum_list_rev sum_sort_key del: rev_map)

lemma filter_most_common: "filter P (most_common c) = most_common (filter P c)"
  by (simp add: most_common_def filter_sort rev_filter [symmetric] del: rev_filter)

lemma most_common_descending: "sorted_wrt (\<lambda>a b. snd b \<le> snd a) (most_common c)"
proof -
  have "sorted (map snd (sort_key snd (rev c)))"
    by (rule sorted_sort_key)
  then have "sorted_wrt (\<lambda>a b. snd a \<le> snd b) (sort_key snd (rev c))"
    by (simp only: sorted_map)
  then show ?thesis
    by (simp only: most_common_def sorted_wrt_rev)
qed

lemma most_common_stable:
  "filter (\<lambda>e. snd e = n) (most_common c) = filter (\<lambda>e. snd e = n) c"
proof -
  have "filter (\<lambda>e. snd e = n) (most_common c)
      = rev (filter (\<lambda>e. snd e = n) (sort_key snd (rev c)))"
    by (simp add: most_common_def rev_filter)
  also have "\<dots> = rev (filter (\<lambda>e. snd e = n) (rev c))"
    by (simp only: sort_key_stable)
  also have "\<dots> = filter (\<lambda>e. snd e = n) c"
    by (simp add: rev_filter)
  finally show ?thesis .
qed

subsection \<open>The loop that leaves out \<^verbatim>\<open>None\<close>\<close>

lemma copy_present:
  "distinct (map fst (acc @ vi)) \<Longrightarrow>
   foldl (\<lambda>versions (version, count).
            if version \<noteq> None then dict_set versions version count else versions) acc vi
   = acc @ filter (\<lambda>e. fst e \<noteq> None) vi"
proof (induction vi arbitrary: acc)
  case Nil
  then show ?case by simp
next
  case (Cons e vi)
  obtain version count where e: "e = (version, count)" by (cases e)
  show ?case
  proof (cases "version = None")
    case True
    with Cons.prems e have "distinct (map fst (acc @ vi))" by simp
    from Cons.IH [OF this] True e show ?thesis by simp
  next
    case False
    from Cons.prems e have fresh: "version \<notin> set (map fst acc)" by auto
    from Cons.prems e have "distinct (map fst ((acc @ [(version, count)]) @ vi))" by auto
    from Cons.IH [OF this] False e fresh show ?thesis
      by (simp add: dict_set_fresh)
  qed
qed

lemma count_versions_filter:
  "count_versions results = filter (\<lambda>e. fst e \<noteq> None) (most_common (Counter results))"
proof -
  have "distinct (map fst ([] @ most_common (Counter results)))"
    by (simp add: distinct_keys_most_common keys_Counter distinct_first_seen)
  from copy_present [OF this] show ?thesis
    by (simp add: count_versions_def)
qed

lemma sum_count_versions:
  "sum_list (map snd (count_versions results)) = int (length (filter (\<lambda>r. r \<noteq> None) results))"
proof -
  have "sum_list (map snd (count_versions results))
      = sum_list (map snd (filter (\<lambda>e. fst e \<noteq> None) (count_elements [] results)))"
    by (simp only: count_versions_filter filter_most_common sum_most_common Counter_def)
  also have "\<dots> = int (length (filter (\<lambda>r. r \<noteq> None) results))"
    using sum_count_elements [of "\<lambda>k. k \<noteq> None" "[]" results] by simp
  finally show ?thesis .
qed

lemma set_first_seen_from: "set (first_seen_from seen xs) = set seen \<union> set xs"
  by (induction xs arbitrary: seen) auto

lemma set_most_common: "set (most_common c) = set c"
  by (simp add: most_common_def)

lemma keys_present: "fst ` set (filter (\<lambda>e. fst e \<noteq> None) es) = fst ` set es - {None}"
  by (induction es) auto

lemma keys_count_versions: "fst ` set (count_versions results) = set results - {None}"
proof -
  have "set (map fst (Counter results)) = set results"
    by (simp add: keys_Counter first_seen_def set_first_seen_from)
  then have keys: "fst ` set (Counter results) = set results"
    by simp
  have "fst ` set (count_versions results) = fst ` set (most_common (Counter results)) - {None}"
    by (simp only: count_versions_filter keys_present)
  also have "\<dots> = set results - {None}"
    by (simp only: set_most_common keys)
  finally show ?thesis .
qed

lemma length_present:
  "(length (filter (\<lambda>r. r \<noteq> None) xs) = length xs) = (None \<notin> set xs)"
proof (induction xs)
  case Nil
  then show ?case by simp
next
  case (Cons x xs)
  have "length (filter (\<lambda>r. r \<noteq> None) xs) \<noteq> Suc (length xs)"
    using length_filter_le [of "\<lambda>r. r \<noteq> None" xs] by arith
  with Cons show ?case by (cases x) auto
qed

lemma filter_swap: "filter Q (filter P xs) = filter P (filter Q xs)"
  by (induction xs) auto

lemma keys_with_count:
  "map fst (filter (\<lambda>e. P (fst e)) (filter (\<lambda>e. snd e = n) (map (\<lambda>k. (k, g k)) ks)))
   = filter (\<lambda>k. P k \<and> g k = n) ks"
  by (induction ks) auto

lemma count_versions_entry:
  assumes "e \<in> set (count_versions results)"
  shows "snd e = int (count_list results (fst e))"
proof -
  from assms have "e \<in> set (Counter results)"
    by (simp add: count_versions_filter set_most_common)
  then show ?thesis
    by (auto simp: Counter_entries)
qed

lemma distinct_keys_count_versions: "distinct (map fst (count_versions results))"
proof -
  have "distinct (map fst (most_common (Counter results)))"
    by (simp add: distinct_keys_most_common keys_Counter distinct_first_seen)
  then show ?thesis
    by (simp only: count_versions_filter distinct_map_filter)
qed

text \<open>
  C7. For every list of results, the keys of the table are the version strings among
  the results, so \<^verbatim>\<open>None\<close> is no key; the counts add up to at most the number of
  results, and to exactly that number if and only if no result is \<^verbatim>\<open>None\<close>.
\<close>

theorem count_versions_total:
  "fst ` set (count_versions results) = set results - {None} \<and>
   sum_list (map snd (count_versions results)) \<le> int (length results) \<and>
   (sum_list (map snd (count_versions results)) = int (length results)) = (None \<notin> set results)"
proof -
  let ?n = "length (filter (\<lambda>r. r \<noteq> None) results)"
  have total: "sum_list (map snd (count_versions results)) = int ?n"
    by (rule sum_count_versions)
  have "?n \<le> length results"
    by (rule length_filter_le)
  then have le: "int ?n \<le> int (length results)"
    by (simp only: of_nat_le_iff)
  have "(?n = length results) = (None \<notin> set results)"
    by (rule length_present)
  then have eq: "(int ?n = int (length results)) = (None \<notin> set results)"
    by (simp only: of_nat_eq_iff)
  from le eq show ?thesis
    by (simp only: total keys_count_versions simp_thms)
qed

text \<open>
  C8. For every list of results, the table has one entry for each version string among
  the results, the count of an entry is the number of results equal to its version,
  and the entries are in the order of descending count: no version comes before a
  version that more results reported.
\<close>

theorem count_versions_descending:
  "fst ` set (count_versions results) = set results - {None} \<and>
   distinct (map fst (count_versions results)) \<and>
   map snd (count_versions results)
     = map (\<lambda>v. int (count_list results v)) (map fst (count_versions results)) \<and>
   sorted_wrt (\<lambda>a b. snd b \<le> snd a) (count_versions results) \<and>
   sorted_wrt (\<lambda>v w. count_list results w \<le> count_list results v)
     (map fst (count_versions results))"
proof -
  have counts: "map snd (count_versions results)
      = map (\<lambda>v. int (count_list results v)) (map fst (count_versions results))"
    by (simp add: count_versions_entry)
  have desc: "sorted_wrt (\<lambda>a b. snd b \<le> snd a) (count_versions results)"
    by (simp only: count_versions_filter sorted_wrt_filter most_common_descending)
  have "sorted_wrt (\<lambda>a b. count_list results (fst b) \<le> count_list results (fst a))
      (count_versions results)"
  proof (rule sorted_wrt_mono_rel [OF _ desc])
    fix a b
    assume "a \<in> set (count_versions results)" "b \<in> set (count_versions results)"
      and "snd b \<le> snd a"
    then show "count_list results (fst b) \<le> count_list results (fst a)"
      by (simp add: count_versions_entry)
  qed
  then have freq: "sorted_wrt (\<lambda>v w. count_list results w \<le> count_list results v)
      (map fst (count_versions results))"
    by (simp only: sorted_wrt_map)
  from counts desc freq show ?thesis
    by (simp only: keys_count_versions distinct_keys_count_versions simp_thms)
qed

text \<open>
  C9. The order of the table is not the order in which the versions were first seen:
  a version seen first and once comes after a version seen later and twice.
\<close>

theorem first_seen_order_counterexample:
  "count_versions [Some ''Dendrite/0.5.0'', Some ''Synapse/1.6.1'', Some ''Synapse/1.6.1'']
     = [(Some ''Synapse/1.6.1'', 2), (Some ''Dendrite/0.5.0'', 1)] \<and>
   map fst (count_versions [Some ''Dendrite/0.5.0'', Some ''Synapse/1.6.1'', Some ''Synapse/1.6.1''])
     \<noteq> first_seen [Some ''Dendrite/0.5.0'', Some ''Synapse/1.6.1'', Some ''Synapse/1.6.1'']"
  by code_simp

text \<open>
  C9, amended. The entries of the table are in the order of descending count, and the
  versions that have the same count \<open>n\<close> are in the order in which each was first
  seen.
\<close>

theorem count_versions_order:
  "sorted_wrt (\<lambda>a b. snd b \<le> snd a) (count_versions results) \<and>
   map fst (filter (\<lambda>e. snd e = n) (count_versions results))
   = filter (\<lambda>v. v \<noteq> None \<and> int (count_list results v) = n) (first_seen results)"
proof -
  have "filter (\<lambda>e. snd e = n) (count_versions results)
      = filter (\<lambda>e. fst e \<noteq> None) (filter (\<lambda>e. snd e = n) (most_common (Counter results)))"
    by (simp only: count_versions_filter filter_swap [of "\<lambda>e. snd e = n"])
  also have "\<dots> = filter (\<lambda>e. fst e \<noteq> None) (filter (\<lambda>e. snd e = n) (Counter results))"
    by (simp only: most_common_stable)
  finally have "map fst (filter (\<lambda>e. snd e = n) (count_versions results))
      = map fst (filter (\<lambda>e. fst e \<noteq> None) (filter (\<lambda>e. snd e = n)
          (map (\<lambda>k. (k, int (count_list results k))) (first_seen results))))"
    by (simp only: Counter_entries [symmetric])
  also have "\<dots> = filter (\<lambda>v. v \<noteq> None \<and> int (count_list results v) = n) (first_seen results)"
    by (rule keys_with_count [of "\<lambda>k. k \<noteq> None"])
  finally have ties: "map fst (filter (\<lambda>e. snd e = n) (count_versions results))
      = filter (\<lambda>v. v \<noteq> None \<and> int (count_list results v) = n) (first_seen results)" .
  have "sorted_wrt (\<lambda>a b. snd b \<le> snd a) (count_versions results)"
    by (simp only: count_versions_filter sorted_wrt_filter most_common_descending)
  with ties show ?thesis by (rule conjI [rotated])
qed

section \<open>The whole run\<close>

text \<open>
  No task raises, so \<^verbatim>\<open>gather\<close> returns one result for each destination and the
  table of \<^verbatim>\<open>main\<close> is the table of these results.
\<close>

lemma version_for_homeserver_returns:
  "\<exists>r. version_for_homeserver repr session resolver domain homeserver headers method debug = Inr r"
  unfolding version_for_homeserver_def
  by (intro try_except_returns) simp

lemma version_for_domain_returns:
  "\<exists>r. version_for_domain repr session resolver domain debug = Inr r"
proof -
  obtain r where "homeserver_for_domain repr session resolver domain = Inr r"
    using resolver_returns by blast
  then show ?thesis
    by (cases r) (simp add: version_for_domain_def and_then_def version_for_homeserver_returns)
qed

lemma gather_returns:
  assumes "\<And>t. t \<in> set tasks \<Longrightarrow> \<exists>r. t = Inr r"
  shows "\<exists>rs. gather tasks = Inr rs \<and> length rs = length tasks"
  using assms
proof (induction tasks)
  case Nil
  then show ?case by simp
next
  case (Cons t tasks)
  from Cons.prems obtain r where "t = Inr r" by auto
  moreover from Cons obtain rs where "gather tasks = Inr rs" "length rs = length tasks" by auto
  ultimately show ?case by (simp add: and_then_def)
qed

lemma main_versions_counts:
  "\<exists>results. length results = length destinations \<and>
     main_versions repr session resolver debug destinations = Inr (count_versions results)"
proof -
  let ?tasks = "map (\<lambda>domain. version_for_domain repr session resolver domain debug) destinations"
  have "\<exists>r. t = Inr r" if "t \<in> set ?tasks" for t
    using that version_for_domain_returns by auto
  then obtain rs where "gather ?tasks = Inr rs" "length rs = length ?tasks"
    using gather_returns by blast
  then show ?thesis
    by (auto simp: main_versions_def and_then_def)
qed

end
